theory Spec2Isabelle
  imports Main "HOL-Library.Sublist"
begin

section \<open>JavaScript values and errors\<close>

text \<open>
  The events that flow through a pipeline are JavaScript values. Numbers are modelled as
  integers (the only numbers the properties below speak about are counts); an object is
  the list of its own properties in insertion order.
\<close>

datatype jsval =
    JUndefined
  | JNull
  | JBool bool
  | JNum int
  | JStr string
  | JArr "jsval list"
  | JObj "(string \<times> jsval) list"

text \<open>A thrown value: \<open>new Error(message)\<close>, or the engine's own \<open>TypeError\<close>.\<close>

datatype js_error = Error string | TypeError string

text \<open>The \<open>typeof\<close> operator; \<open>typeof null\<close> is \<open>"object"\<close>, as for arrays.\<close>

fun typeof :: "jsval \<Rightarrow> string" where
  "typeof JUndefined = ''undefined''"
| "typeof JNull = ''object''"
| "typeof (JBool b) = ''boolean''"
| "typeof (JNum n) = ''number''"
| "typeof (JStr s) = ''string''"
| "typeof (JArr xs) = ''object''"
| "typeof (JObj kvs) = ''object''"

text \<open>
  The property read \<open>message.payload\<close>: a \<open>TypeError\<close> on \<open>null\<close> and \<open>undefined\<close>,
  the property's value on an object that has it, \<open>undefined\<close> everywhere else (arrays,
  strings, numbers and booleans have no property of that name).
\<close>

fun payload_of :: "jsval \<Rightarrow> js_error + jsval" where
  "payload_of JUndefined = Inl (TypeError ''Cannot read property payload of undefined'')"
| "payload_of JNull = Inl (TypeError ''Cannot read property payload of null'')"
| "payload_of (JObj kvs) =
     (case map_of kvs ''payload'' of None \<Rightarrow> Inr JUndefined | Some v \<Rightarrow> Inr v)"
| "payload_of v = Inr JUndefined"

text \<open>
  \<open>String.prototype.toLowerCase\<close> on byte strings: the letters A to Z are mapped to a to z and
  every other byte is kept. (Beyond ASCII a character is several bytes of 128 and more, none of
  which lower-cases to a letter of the three produce modes.)
\<close>

definition upper_to_lower :: "(char \<times> char) list" where
  "upper_to_lower = zip ''ABCDEFGHIJKLMNOPQRSTUVWXYZ'' ''abcdefghijklmnopqrstuvwxyz''"

definition toLowerCase :: "string \<Rightarrow> string" where
  "toLowerCase s = map (\<lambda>c. case map_of upper_to_lower c of None \<Rightarrow> c | Some d \<Rightarrow> d) s"

text \<open>\<open>Array.prototype.join\<close> on strings.\<close>

fun join :: "string \<Rightarrow> string list \<Rightarrow> string" where
  "join sep [] = []"
| "join sep [x] = x"
| "join sep (x # y # ys) = x @ sep @ join sep (y # ys)"

section \<open>The event source held by a pipeline handle\<close>

text \<open>
  The keyed store's contents: keys in first-seen order, each with its accumulator. The
  store is shared by the aggregation steps of a pipeline, so it is threaded through the run.
\<close>

type_synonym kstate = "(jsval \<times> int) list"

text \<open>
  A synchronous transform \<open>v -> v2\<close> either returns or throws. An asynchronous transform
  \<open>v -> Promise\<close> settles to a value or to a failure and may read and write the keyed store.
\<close>

type_synonym etl = "jsval \<Rightarrow> js_error + jsval"
type_synonym async_etl = "kstate \<Rightarrow> jsval \<Rightarrow> (js_error + jsval) \<times> kstate"

text \<open>
  \<open>this.stream$\<close> is a most.js stream: the source fed by the handle's own event emitter
  (\<open>most.fromEvent(MESSAGE, this._ee)\<close>), wrapped by one primitive of the engine for every DSL
  call. The datatype records which primitive was applied with which arguments.
\<close>

datatype most_stream =
    FromEvent
  | MapS etl most_stream
  | FlatMapPromiseS async_etl most_stream
  | TapS "jsval \<Rightarrow> js_error option" most_stream
  | FilterS "jsval \<Rightarrow> bool" most_stream
  | SkipRepeatsS most_stream
  | SkipRepeatsWithS "jsval \<Rightarrow> jsval \<Rightarrow> bool" most_stream
  | SkipS nat most_stream
  | TakeS nat most_stream
  | TimestampS most_stream
  | ConstantS jsval most_stream
  | ScanS "jsval \<Rightarrow> jsval \<Rightarrow> jsval" jsval most_stream
  | SliceS nat nat most_stream
  | TakeWhileS "jsval \<Rightarrow> bool" most_stream
  | SkipWhileS "jsval \<Rightarrow> bool" most_stream
  | UntilS most_stream most_stream
  | SinceS most_stream most_stream
  | ThrottleS nat most_stream
  | DelayS nat most_stream
  | DebounceS nat most_stream

section \<open>Collaborators\<close>

text \<open>
  What the core asks of the broker client. A dispatch returns a promise; \<open>kc_rejects\<close> says
  for each dispatch whether that promise fails, and with what.
\<close>

datatype broker_call =
    SetupProducer "string option" int
  | Send "string option" jsval
  | Buffer "string option" jsval jsval int
  | BufferFormat "string option" jsval jsval int int

record KafkaClient =
  kc_instance :: bool
  kc_setupProducer :: bool
  kc_rejects :: "broker_call \<Rightarrow> js_error option"

record KStorage =
  ks_instance :: bool

section \<open>The pipeline handle\<close>

record StreamDSL =
  topicName :: string
  kafka :: "KafkaClient option"
  storage :: KStorage
  isClone :: bool
  stream :: most_stream
  produceAsTopic :: bool
  outputTopicName :: "string option"
  outputPartitionsCount :: int
  produceType :: string
  produceVersion :: int
  produceCompressionType :: int
  kafkaStreams :: "nat option"

definition PRODUCE_TYPES :: "(string \<times> string) list" where
  "PRODUCE_TYPES =
     [(''SEND'', ''send''), (''BUFFER'', ''buffer''), (''BUFFER_FORMAT'', ''buffer_format'')]"

text \<open>
  The constructor. An absent argument (\<open>null\<close>) is \<open>None\<close>; \<open>kc_instance\<close> and \<open>ks_instance\<close>
  are the two \<open>instanceof\<close> tests. \<open>Inl\<close> is the exception thrown by \<open>new StreamDSL(...)\<close>.
\<close>

definition constructor ::
  "string option \<Rightarrow> KStorage option \<Rightarrow> KafkaClient option \<Rightarrow> bool \<Rightarrow> js_error + StreamDSL" where
  "constructor topic_arg storage_arg kafka_arg clone =
     (if \<not> clone \<and> (case kafka_arg of None \<Rightarrow> True | Some k \<Rightarrow> \<not> kc_instance k)
      then Inl (Error ''kafka has to be an instance of KafkaClient.'')
      else (case storage_arg of
          None \<Rightarrow> Inl (Error ''storage hsa to be an instance of KStorage.'')
        | Some st \<Rightarrow>
            if \<not> ks_instance st then Inl (Error ''storage hsa to be an instance of KStorage.'')
            else Inr \<lparr> topicName = (case topic_arg of None \<Rightarrow> [] | Some t \<Rightarrow> t),
                       kafka = kafka_arg,
                       storage = st,
                       isClone = clone,
                       stream = FromEvent,
                       produceAsTopic = False,
                       outputTopicName = None,
                       outputPartitionsCount = 1,
                       produceType = ''send'',
                       produceVersion = 1,
                       produceCompressionType = 0,
                       kafkaStreams = None \<rparr>))"

section \<open>DSL operators\<close>

text \<open>
  Every operator assigns \<open>this.stream$\<close> and ends in \<open>return this\<close>: the function gives the
  receiver after the call.
\<close>

definition map_dsl :: "etl \<Rightarrow> StreamDSL \<Rightarrow> StreamDSL" where
  "map_dsl f this = this\<lparr>stream := MapS f (stream this)\<rparr>"

definition asyncMap :: "async_etl \<Rightarrow> StreamDSL \<Rightarrow> StreamDSL" where
  "asyncMap f this = this\<lparr>stream := FlatMapPromiseS f (stream this)\<rparr>"

definition tap :: "(jsval \<Rightarrow> js_error option) \<Rightarrow> StreamDSL \<Rightarrow> StreamDSL" where
  "tap eff this = this\<lparr>stream := TapS eff (stream this)\<rparr>"

definition filter_dsl :: "(jsval \<Rightarrow> bool) \<Rightarrow> StreamDSL \<Rightarrow> StreamDSL" where
  "filter_dsl pred this = this\<lparr>stream := FilterS pred (stream this)\<rparr>"

definition skipRepeats :: "StreamDSL \<Rightarrow> StreamDSL" where
  "skipRepeats this = this\<lparr>stream := SkipRepeatsS (stream this)\<rparr>"

definition skipRepeatsWith :: "(jsval \<Rightarrow> jsval \<Rightarrow> bool) \<Rightarrow> StreamDSL \<Rightarrow> StreamDSL" where
  "skipRepeatsWith equals this = this\<lparr>stream := SkipRepeatsWithS equals (stream this)\<rparr>"

definition skip :: "nat \<Rightarrow> StreamDSL \<Rightarrow> StreamDSL" where
  "skip count this = this\<lparr>stream := SkipS count (stream this)\<rparr>"

definition take_dsl :: "nat \<Rightarrow> StreamDSL \<Rightarrow> StreamDSL" where
  "take_dsl count this = this\<lparr>stream := TakeS count (stream this)\<rparr>"

definition timestamp :: "etl option \<Rightarrow> StreamDSL \<Rightarrow> StreamDSL" where
  "timestamp f this =
     (case f of
        None \<Rightarrow> this\<lparr>stream := TimestampS (stream this)\<rparr>
      | Some g \<Rightarrow>
          this\<lparr>stream :=
            MapS (\<lambda>element. case g element of
                      Inl e \<Rightarrow> Inl e
                    | Inr t \<Rightarrow> Inr (JObj [(''time'', t), (''value'', element)]))
                 (stream this)\<rparr>)"

definition constant_dsl :: "jsval \<Rightarrow> StreamDSL \<Rightarrow> StreamDSL" where
  "constant_dsl substitute this = this\<lparr>stream := ConstantS substitute (stream this)\<rparr>"

definition scan :: "(jsval \<Rightarrow> jsval \<Rightarrow> jsval) \<Rightarrow> jsval \<Rightarrow> StreamDSL \<Rightarrow> StreamDSL" where
  "scan eff initial this = this\<lparr>stream := ScanS eff initial (stream this)\<rparr>"

definition slice :: "nat \<Rightarrow> nat \<Rightarrow> StreamDSL \<Rightarrow> StreamDSL" where
  "slice start stop this = this\<lparr>stream := SliceS start stop (stream this)\<rparr>"

definition takeWhile_dsl :: "(jsval \<Rightarrow> bool) \<Rightarrow> StreamDSL \<Rightarrow> StreamDSL" where
  "takeWhile_dsl pred this = this\<lparr>stream := TakeWhileS pred (stream this)\<rparr>"

definition skipWhile :: "(jsval \<Rightarrow> bool) \<Rightarrow> StreamDSL \<Rightarrow> StreamDSL" where
  "skipWhile pred this = this\<lparr>stream := SkipWhileS pred (stream this)\<rparr>"

definition until :: "most_stream \<Rightarrow> StreamDSL \<Rightarrow> StreamDSL" where
  "until signal this = this\<lparr>stream := UntilS signal (stream this)\<rparr>"

definition since :: "most_stream \<Rightarrow> StreamDSL \<Rightarrow> StreamDSL" where
  "since signal this = this\<lparr>stream := SinceS signal (stream this)\<rparr>"

definition throttle :: "nat \<Rightarrow> StreamDSL \<Rightarrow> StreamDSL" where
  "throttle throttlePeriod this = this\<lparr>stream := ThrottleS throttlePeriod (stream this)\<rparr>"

definition delay :: "nat \<Rightarrow> StreamDSL \<Rightarrow> StreamDSL" where
  "delay delayTime this = this\<lparr>stream := DelayS delayTime (stream this)\<rparr>"

definition debounce :: "nat \<Rightarrow> StreamDSL \<Rightarrow> StreamDSL" where
  "debounce debounceTime this = this\<lparr>stream := DebounceS debounceTime (stream this)\<rparr>"

subsection \<open>Envelope transforms\<close>

text \<open>
  The two readings of the environment that \<open>mapToFormat\<close>'s transform takes for a message:
  \<open>(new Date()).toISOString()\<close> and \<open>uuid.v4()\<close>. They are inputs of the transform; the
  model gives one pair of readings to a transform, and nothing below depends on their values.
\<close>

record env =
  now_iso :: string
  fresh_uuid :: string

text \<open>
  The transform installed by \<open>mapToFormat(type, getId)\<close>. \<open>getId\<close> is the caller's
  extractor (\<open>None\<close> when it is not given); it may throw, and then the transform throws.
\<close>

definition mapToFormat_etl :: "jsval \<Rightarrow> etl option \<Rightarrow> env \<Rightarrow> etl" where
  "mapToFormat_etl type getId ev message =
     (case (case getId of None \<Rightarrow> Inr (JStr (fresh_uuid ev)) | Some g \<Rightarrow> g message) of
        Inl e \<Rightarrow> Inl e
      | Inr ident \<Rightarrow>
          Inr (JObj [(''payload'', message),
                     (''time'', JStr (now_iso ev)),
                     (''type'', type),
                     (''id'', ident)]))"

definition mapToFormat :: "jsval \<Rightarrow> etl option \<Rightarrow> env \<Rightarrow> StreamDSL \<Rightarrow> StreamDSL" where
  "mapToFormat type getId ev this = map_dsl (mapToFormat_etl type getId ev) this"

text \<open>
  The extractor that the documentation of \<open>mapToFormat\<close> gives as its example,
  \<open>getId = message -> message.id\<close>: the property read throws a \<open>TypeError\<close> on \<open>null\<close> and
  \<open>undefined\<close>, gives the property's value on an object that has it, and \<open>undefined\<close>
  everywhere else.
\<close>

fun message_id :: etl where
  "message_id JUndefined = Inl (TypeError ''Cannot read property id of undefined'')"
| "message_id JNull = Inl (TypeError ''Cannot read property id of null'')"
| "message_id (JObj kvs) = (case map_of kvs ''id'' of None \<Rightarrow> Inr JUndefined | Some v \<Rightarrow> Inr v)"
| "message_id v = Inr JUndefined"

text \<open>
  The transform installed by \<open>mapFromFormat()\<close>. \<open>parse\<close> stands for \<open>JSON.parse\<close>; both the
  parse and the property read on its result sit inside the \<open>try\<close>, whose \<open>catch\<close> is empty.
\<close>

definition mapFromFormat_etl :: "(jsval \<Rightarrow> js_error + jsval) \<Rightarrow> etl" where
  "mapFromFormat_etl parse message =
     (if typeof message = ''object'' then payload_of message
      else (case parse message of
              Inl e \<Rightarrow> Inr message
            | Inr object \<Rightarrow>
                if typeof object = ''object''
                then (case payload_of object of Inl e \<Rightarrow> Inr message | Inr v \<Rightarrow> Inr v)
                else Inr message))"

definition mapFromFormat :: "(jsval \<Rightarrow> js_error + jsval) \<Rightarrow> StreamDSL \<Rightarrow> StreamDSL" where
  "mapFromFormat parse this = map_dsl (mapFromFormat_etl parse) this"

subsection \<open>Aggregation\<close>

text \<open>
  Modelled from the spec: the keyed store (\<open>KStorage.js\<close>) is not among the sources. Its
  contract is \<open>get(key)\<close>, the accumulator or absent, and \<open>put(key, accumulator)\<close>; an entry is
  created on the first event for a key and updated afterwards, never deleted.
\<close>

definition KStorage_get :: "kstate \<Rightarrow> jsval \<Rightarrow> int option" where
  "KStorage_get st k = map_of st k"

fun KStorage_put :: "kstate \<Rightarrow> jsval \<Rightarrow> int \<Rightarrow> kstate" where
  "KStorage_put [] k v = [(k, v)]"
| "KStorage_put ((k', v') # st) k v =
     (if k' = k then (k, v) # st else (k', v') # KStorage_put st k v)"

text \<open>The designated field of an event: absent on anything but an object that has it.\<close>

fun field :: "string \<Rightarrow> jsval \<Rightarrow> jsval option" where
  "field name (JObj kvs) = map_of kvs name"
| "field name v = None"

text \<open>Assignment \<open>event[name] = v\<close> on an object: in place when the property exists, appended otherwise.\<close>

fun set_prop :: "string \<Rightarrow> jsval \<Rightarrow> (string \<times> jsval) list \<Rightarrow> (string \<times> jsval) list" where
  "set_prop name v [] = [(name, v)]"
| "set_prop name v ((n, w) # kvs) =
     (if n = name then (n, v) # kvs else (n, w) # set_prop name v kvs)"

fun augment :: "string \<Rightarrow> jsval \<Rightarrow> jsval \<Rightarrow> jsval" where
  "augment name v (JObj kvs) = JObj (set_prop name v kvs)"
| "augment name v event = event"

text \<open>
  Modelled from the spec: the Count action (\<open>actions/KeyCount.js\<close>) is not among the sources.
  \<open>execute(event)\<close> extracts the key \<open>event[keyField]\<close> and passes the event through unmodified
  if the key is absent; otherwise it reads the current accumulator (absent is zero),
  increments it by 1, writes it back under the key and returns the event augmented with the
  new accumulator under the configured output field name.
\<close>

definition KeyCount_execute :: "string \<Rightarrow> string \<Rightarrow> async_etl" where
  "KeyCount_execute keyField fieldName st event =
     (case field keyField event of
        None \<Rightarrow> (Inr event, st)
      | Some k \<Rightarrow>
          (let current = (case KStorage_get st k of None \<Rightarrow> 0 | Some c \<Rightarrow> c);
               new = current + 1
           in (Inr (augment fieldName (JNum new) event), KStorage_put st k new)))"

definition countByKey :: "string \<Rightarrow> string \<Rightarrow> StreamDSL \<Rightarrow> StreamDSL" where
  "countByKey key countFieldName this = asyncMap (KeyCount_execute key countFieldName) this"

subsection \<open>Calling an operator on a handle\<close>

text \<open>The nineteen operators of the DSL, with their arguments.\<close>

datatype dsl_op =
    Op_map etl
  | Op_asyncMap async_etl
  | Op_filter "jsval \<Rightarrow> bool"
  | Op_tap "jsval \<Rightarrow> js_error option"
  | Op_scan "jsval \<Rightarrow> jsval \<Rightarrow> jsval" jsval
  | Op_throttle nat
  | Op_delay nat
  | Op_debounce nat
  | Op_skip nat
  | Op_take nat
  | Op_skipWhile "jsval \<Rightarrow> bool"
  | Op_takeWhile "jsval \<Rightarrow> bool"
  | Op_skipRepeats
  | Op_skipRepeatsWith "jsval \<Rightarrow> jsval \<Rightarrow> bool"
  | Op_slice nat nat
  | Op_constant jsval
  | Op_timestamp "etl option"
  | Op_until most_stream
  | Op_since most_stream

fun apply_op :: "dsl_op \<Rightarrow> StreamDSL \<Rightarrow> StreamDSL" where
  "apply_op (Op_map f) = map_dsl f"
| "apply_op (Op_asyncMap f) = asyncMap f"
| "apply_op (Op_filter p) = filter_dsl p"
| "apply_op (Op_tap eff) = tap eff"
| "apply_op (Op_scan eff initial) = scan eff initial"
| "apply_op (Op_throttle n) = throttle n"
| "apply_op (Op_delay n) = delay n"
| "apply_op (Op_debounce n) = debounce n"
| "apply_op (Op_skip n) = skip n"
| "apply_op (Op_take n) = take_dsl n"
| "apply_op (Op_skipWhile p) = skipWhile p"
| "apply_op (Op_takeWhile p) = takeWhile_dsl p"
| "apply_op Op_skipRepeats = skipRepeats"
| "apply_op (Op_skipRepeatsWith eq) = skipRepeatsWith eq"
| "apply_op (Op_slice a b) = slice a b"
| "apply_op (Op_constant v) = constant_dsl v"
| "apply_op (Op_timestamp f) = timestamp f"
| "apply_op (Op_until sg) = until sg"
| "apply_op (Op_since sg) = since sg"

text \<open>
  Handles are objects: a program holds references to them, and two variables may hold the same
  one. A method call on the reference \<open>r\<close> updates the object at \<open>r\<close> in place and, the
  body ending in \<open>return this\<close>, returns \<open>r\<close>.
\<close>

type_synonym ref = nat
type_synonym heap = "ref \<Rightarrow> StreamDSL option"

definition call_op :: "dsl_op \<Rightarrow> ref \<Rightarrow> heap \<Rightarrow> ref \<times> heap" where
  "call_op op r H = (r, (case H r of None \<Rightarrow> H | Some this \<Rightarrow> H(r \<mapsto> apply_op op this)))"

section \<open>Running a pipeline\<close>

text \<open>
  The run-time behaviour of the engine's primitives that the properties below depend on, for
  events written one at a time with \<open>writeToStream\<close>: \<open>map\<close>, \<open>flatMap\<close> over
  \<open>fromPromise\<close>, \<open>skip\<close> and \<open>take\<close>. A transform that throws, or whose promise fails, fails the
  stream; \<open>take\<close> ends it with its last event. A promise settles before the next event is
  written. The other primitives depend on timers or on other streams and are not run: their
  result is \<open>None\<close>.

  \<open>push s st x\<close> gives the stream after the event \<open>x\<close> (the counters of \<open>skip\<close> and \<open>take\<close>
  count down), the store, the event that comes out, if one does, and whether the stream goes on.
\<close>

datatype signal = Continue | End | Fail js_error

fun emitted :: "jsval option \<Rightarrow> jsval list" where
  "emitted None = []"
| "emitted (Some y) = [y]"

fun push ::
  "most_stream \<Rightarrow> kstate \<Rightarrow> jsval \<Rightarrow> (most_stream \<times> kstate \<times> jsval option \<times> signal) option" where
  "push FromEvent st x = Some (FromEvent, st, Some x, Continue)"
| "push (MapS f s) st x =
     (case push s st x of
        None \<Rightarrow> None
      | Some (s', st', out, sg) \<Rightarrow>
          (case out of
             None \<Rightarrow> Some (MapS f s', st', None, sg)
           | Some y \<Rightarrow>
               (case f y of
                  Inl e \<Rightarrow> Some (MapS f s', st', None, Fail e)
                | Inr z \<Rightarrow> Some (MapS f s', st', Some z, sg))))"
| "push (FlatMapPromiseS f s) st x =
     (case push s st x of
        None \<Rightarrow> None
      | Some (s', st', out, sg) \<Rightarrow>
          (case out of
             None \<Rightarrow> Some (FlatMapPromiseS f s', st', None, sg)
           | Some y \<Rightarrow>
               (case f st' y of
                  (Inl e, st'') \<Rightarrow> Some (FlatMapPromiseS f s', st'', None, Fail e)
                | (Inr z, st'') \<Rightarrow> Some (FlatMapPromiseS f s', st'', Some z, sg))))"
| "push (SkipS n s) st x =
     (case push s st x of
        None \<Rightarrow> None
      | Some (s', st', out, sg) \<Rightarrow>
          (case out of
             None \<Rightarrow> Some (SkipS n s', st', None, sg)
           | Some y \<Rightarrow>
               (case n of
                  0 \<Rightarrow> Some (SkipS 0 s', st', Some y, sg)
                | Suc k \<Rightarrow> Some (SkipS k s', st', None, sg))))"
| "push (TakeS n s) st x =
     (case n of
        0 \<Rightarrow> Some (TakeS 0 s, st, None, End)
      | Suc k \<Rightarrow>
          (case push s st x of
             None \<Rightarrow> None
           | Some (s', st', out, sg) \<Rightarrow>
               (case out of
                  None \<Rightarrow> Some (TakeS (Suc k) s', st', None, sg)
                | Some y \<Rightarrow> Some (TakeS k s', st', Some y, if k = 0 then End else sg))))"
| "push s st x = None"

text \<open>Writing a finite sequence of events: the events that come out, the store, and how the run stopped.\<close>

fun feed :: "most_stream \<Rightarrow> kstate \<Rightarrow> jsval list \<Rightarrow> (jsval list \<times> kstate \<times> signal) option" where
  "feed s st [] = Some ([], st, Continue)"
| "feed s st (x # xs) =
     (case push s st x of
        None \<Rightarrow> None
      | Some (s', st', out, sg) \<Rightarrow>
          (case sg of
             Continue \<Rightarrow>
               (case feed s' st' xs of
                  None \<Rightarrow> None
                | Some (ys, st'', sg') \<Rightarrow> Some (emitted out @ ys, st'', sg'))
           | End \<Rightarrow> Some (emitted out, st', End)
           | Fail e \<Rightarrow> Some (emitted out, st', Fail e)))"

section \<open>Production binding\<close>

text \<open>
  The arguments of \<open>to\<close>. The produce type is a string, as the signature documents it, or
  \<open>null\<close> (or another falsy value), which is \<open>None\<close>; the error callback is either supplied
  or not. \<open>to_defaults\<close> are the defaults of the signature.
\<close>

record to_args =
  arg_topic :: string
  arg_outputPartitionsCount :: int
  arg_produceType :: "string option"
  arg_version :: int
  arg_compressionType :: int
  arg_producerErrorCallback :: bool

definition to_defaults :: "string \<Rightarrow> to_args" where
  "to_defaults topic =
     \<lparr> arg_topic = topic, arg_outputPartitionsCount = 1, arg_produceType = Some ''send'',
       arg_version = 1, arg_compressionType = 0, arg_producerErrorCallback = False \<rparr>"

text \<open>
  The terminal consumer that \<open>to\<close> attaches with \<open>this.forEach\<close>: the stream it subscribes to
  and the arguments its closure keeps.
\<close>

record sink =
  sink_source :: most_stream
  sink_version :: int
  sink_compressionType :: int
  sink_callback :: bool

text \<open>
  The handle together with what its calls reach outside it: the consumers attached to its
  stream, the calls made on the broker client and the errors handed to the error callback,
  each oldest first.
\<close>

record sys =
  dsl :: StreamDSL
  subscribers :: "sink list"
  broker :: "broker_call list"
  reported :: "js_error list"

text \<open>
  \<open>new Promise(executor)\<close> runs the executor at once. The executor of \<open>to\<close> stops in one of
  three ways: it throws, it calls \<open>resolve(true)\<close>, or it hands \<open>resolve\<close> to the broker client
  as the ready callback of \<open>setupProducer\<close> (which is taken to return normally, and to call
  \<open>resolve\<close> later or never). The constructor turns an exception of the executor into a
  rejection of the promise it returns.
\<close>

datatype executor_end = Threw js_error | CalledResolve bool | HandedResolve

datatype promise = Fulfilled bool | Rejected js_error | Pending

fun new_Promise :: "executor_end \<Rightarrow> promise" where
  "new_Promise (Threw e) = Rejected e"
| "new_Promise (CalledResolve b) = Fulfilled b"
| "new_Promise HandedResolve = Pending"

definition already_called :: js_error where
  "already_called = Error ''.to() has already been called on this dsl instance.''"

definition unsupported_type :: js_error where
  "unsupported_type =
     Error (''produceType must be a supported types: '' @ join '', '' (map snd PRODUCE_TYPES) @ ''.'')"

definition clone_without_producer :: js_error where
  "clone_without_producer =
     Error ''setting .to() on a cloned KStream requires a kafka client to injected during merge.''"

text \<open>\<open>produceType = produceType || ""; produceType = produceType.toLowerCase()\<close>\<close>

definition normalized_type :: "string option \<Rightarrow> string" where
  "normalized_type p = toLowerCase (case p of None \<Rightarrow> [] | Some t \<Rightarrow> t)"

text \<open>The assignments that bind the handle to its output.\<close>

definition bind_fields :: "to_args \<Rightarrow> StreamDSL \<Rightarrow> StreamDSL" where
  "bind_fields a this =
     this\<lparr> produceAsTopic := True,
           outputTopicName := Some (arg_topic a),
           outputPartitionsCount := arg_outputPartitionsCount a,
           produceType := normalized_type (arg_produceType a),
           produceVersion := arg_version a,
           produceCompressionType := arg_compressionType a \<rparr>"

definition to_executor :: "to_args \<Rightarrow> sys \<Rightarrow> executor_end \<times> sys" where
  "to_executor a s =
     (let this = dsl s in
      if produceAsTopic this then (Threw already_called, s)
      else
        (let produceTypes = map snd PRODUCE_TYPES
         in if normalized_type (arg_produceType a) \<notin> set produceTypes
            then (Threw unsupported_type, s)
            else
              (let this' = bind_fields a this;
                   s' = s\<lparr>dsl := this'\<rparr>
               in if \<not> isClone this' then (CalledResolve True, s')
                  else if (case kafka this' of None \<Rightarrow> True | Some k \<Rightarrow> \<not> kc_setupProducer k)
                  then (Threw clone_without_producer, s')
                  else (HandedResolve,
                        s'\<lparr> broker := broker s' @
                               [SetupProducer (outputTopicName this') (outputPartitionsCount this')],
                            subscribers := subscribers s' @
                               [\<lparr> sink_source = stream this',
                                  sink_version = arg_version a,
                                  sink_compressionType = arg_compressionType a,
                                  sink_callback = arg_producerErrorCallback a \<rparr>] \<rparr>))))"

text \<open>
  \<open>to\<close> itself only returns the promise; \<open>Inl\<close> would be an exception thrown by the call.
\<close>

definition to :: "to_args \<Rightarrow> sys \<Rightarrow> (js_error + promise) \<times> sys" where
  "to a s = (case to_executor a s of (r, s') \<Rightarrow> (Inr (new_Promise r), s'))"

text \<open>
  The consumer's body for one terminal event. The produce type and the topic are read from the
  handle when the event arrives; version and compression type are the arguments of the call
  of \<open>to\<close>. \<open>produce_call\<close> is the \<open>switch\<close>: with a produce type outside the three no
  case matches, \<open>promise\<close> stays \<open>null\<close> and \<open>promise.catch\<close> throws. A promise that fails
  is caught; the error goes to the error callback when there is one.
\<close>

definition produce_call :: "StreamDSL \<Rightarrow> sink \<Rightarrow> jsval \<Rightarrow> broker_call option" where
  "produce_call this k message =
     (if produceType this = ''send''
      then Some (Send (outputTopicName this) message)
      else if produceType this = ''buffer''
      then Some (Buffer (outputTopicName this) JNull message (sink_compressionType k))
      else if produceType this = ''buffer_format''
      then Some (BufferFormat (outputTopicName this) JNull message
                   (sink_version k) (sink_compressionType k))
      else None)"

definition caught :: "KafkaClient \<Rightarrow> sink \<Rightarrow> broker_call \<Rightarrow> js_error list" where
  "caught client k c =
     (case kc_rejects client c of
        None \<Rightarrow> []
      | Some e \<Rightarrow> if sink_callback k then [e] else [])"

definition dispatch :: "sink \<Rightarrow> jsval \<Rightarrow> sys \<Rightarrow> js_error + sys" where
  "dispatch k message s =
     (let this = dsl s in
      case produce_call this k message of
        None \<Rightarrow> Inl (TypeError ''Cannot read property catch of null'')
      | Some c \<Rightarrow>
          (case kafka this of
             None \<Rightarrow> Inl (TypeError ''Cannot read property send of null'')
           | Some client \<Rightarrow>
               Inr (s\<lparr> broker := broker s @ [c],
                       reported := reported s @ caught client k c \<rparr>)))"

text \<open>The consumer over the terminal events of a run, in order; an exception of its body ends it.\<close>

fun consume :: "sink \<Rightarrow> jsval list \<Rightarrow> sys \<Rightarrow> js_error + sys" where
  "consume k [] s = Inr s"
| "consume k (m # ms) s = (case dispatch k m s of Inl e \<Rightarrow> Inl e | Inr s' \<Rightarrow> consume k ms s')"

section \<open>Example inputs\<close>

text \<open>A client whose \<open>send\<close> of the number 2 fails, and an object that is no broker client.\<close>

definition example_client :: KafkaClient where
  "example_client =
     \<lparr> kc_instance = True, kc_setupProducer = True,
       kc_rejects = (\<lambda>c. case c of
                          Send t m \<Rightarrow> if m = JNum 2 then Some (Error ''broker down'') else None
                        | _ \<Rightarrow> None) \<rparr>"

definition foreign_client :: KafkaClient where
  "foreign_client = \<lparr> kc_instance = False, kc_setupProducer = False, kc_rejects = (\<lambda>c. None) \<rparr>"

definition example_storage :: KStorage where
  "example_storage = \<lparr> ks_instance = True \<rparr>"

text \<open>The handle that \<open>new StreamDSL("streams-file-input", storage, kafka)\<close> gives, and two clones.\<close>

definition example_source :: StreamDSL where
  "example_source =
     \<lparr> topicName = ''streams-file-input'', kafka = Some example_client,
       storage = example_storage, isClone = False, stream = FromEvent,
       produceAsTopic = False, outputTopicName = None, outputPartitionsCount = 1,
       produceType = ''send'', produceVersion = 1, produceCompressionType = 0,
       kafkaStreams = None \<rparr>"

definition example_clone :: StreamDSL where
  "example_clone = example_source\<lparr> isClone := True \<rparr>"

definition orphan_clone :: StreamDSL where
  "orphan_clone = example_source\<lparr> isClone := True, kafka := None \<rparr>"

definition start :: "StreamDSL \<Rightarrow> sys" where
  "start this = \<lparr> dsl = this, subscribers = [], broker = [], reported = [] \<rparr>"

text \<open>An event \<open>{key: k}\<close>; the ten events of the specification, and the ten keys of the word-count test.\<close>

definition keyed :: "string \<Rightarrow> jsval" where
  "keyed k = JObj [(''key'', JStr k)]"

definition spec_events :: "jsval list" where
  "spec_events =
     map keyed [''if'', ''bla'', ''if'', ''blup'', ''blup'', ''if'', ''bla'', ''if'', ''bla'', ''blup'']"

definition wordcount_events :: "jsval list" where
  "wordcount_events =
     map keyed [''if'', ''if'', ''bla'', ''if'', ''blup'', ''if'', ''bla'', ''if'', ''bla'', ''blup'']"

text \<open>An event of the counting step: the key and its running count under \<open>Counts\<close>.\<close>

definition counted :: "string \<Rightarrow> int \<Rightarrow> jsval" where
  "counted k c = JObj [(''key'', JStr k), (''Counts'', JNum c)]"

section \<open>Facts about production binding\<close>

lemma unsupported_type_message:
  "unsupported_type = Error ''produceType must be a supported types: send, buffer, buffer_format.''"
  by (simp add: unsupported_type_def PRODUCE_TYPES_def)

lemma toLowerCase_idem: "toLowerCase (toLowerCase s) = toLowerCase s"
  by (induction s) (simp_all add: toLowerCase_def upper_to_lower_def)

lemma normalized_send: "normalized_type (Some ''send'') = ''send''"
  by (simp add: normalized_type_def toLowerCase_def upper_to_lower_def)

lemma normalized_bogus: "normalized_type (Some ''bogus'') = ''bogus''"
  by (simp add: normalized_type_def toLowerCase_def upper_to_lower_def)

lemma normalized_mixed_case: "normalized_type (Some ''Buffer_FORMAT'') = ''buffer_format''"
  by (simp add: normalized_type_def toLowerCase_def upper_to_lower_def)

text \<open>The five ways through \<open>to\<close>.\<close>

lemma to_bound: "produceAsTopic (dsl s) \<Longrightarrow> to a s = (Inr (Rejected already_called), s)"
  by (simp add: to_def to_executor_def)

lemma to_invalid:
  "\<not> produceAsTopic (dsl s) \<Longrightarrow>
   normalized_type (arg_produceType a) \<notin> {''send'', ''buffer'', ''buffer_format''} \<Longrightarrow>
   to a s = (Inr (Rejected unsupported_type), s)"
  by (simp add: to_def to_executor_def Let_def PRODUCE_TYPES_def)

lemma to_source:
  "\<not> produceAsTopic (dsl s) \<Longrightarrow>
   normalized_type (arg_produceType a) \<in> {''send'', ''buffer'', ''buffer_format''} \<Longrightarrow>
   \<not> isClone (dsl s) \<Longrightarrow>
   to a s = (Inr (Fulfilled True), s\<lparr>dsl := bind_fields a (dsl s)\<rparr>)"
  by (simp add: to_def to_executor_def Let_def PRODUCE_TYPES_def bind_fields_def)

lemma to_clone_orphan:
  "\<not> produceAsTopic (dsl s) \<Longrightarrow>
   normalized_type (arg_produceType a) \<in> {''send'', ''buffer'', ''buffer_format''} \<Longrightarrow>
   isClone (dsl s) \<Longrightarrow>
   kafka (dsl s) = None \<or> (\<exists>k. kafka (dsl s) = Some k \<and> \<not> kc_setupProducer k) \<Longrightarrow>
   to a s = (Inr (Rejected clone_without_producer), s\<lparr>dsl := bind_fields a (dsl s)\<rparr>)"
  by (auto simp add: to_def to_executor_def Let_def PRODUCE_TYPES_def bind_fields_def)

lemma to_clone:
  "\<not> produceAsTopic (dsl s) \<Longrightarrow>
   normalized_type (arg_produceType a) \<in> {''send'', ''buffer'', ''buffer_format''} \<Longrightarrow>
   isClone (dsl s) \<Longrightarrow> kafka (dsl s) = Some k \<Longrightarrow> kc_setupProducer k \<Longrightarrow>
   to a s =
     (Inr Pending,
      s\<lparr> dsl := bind_fields a (dsl s),
         broker := broker s @ [SetupProducer (Some (arg_topic a)) (arg_outputPartitionsCount a)],
         subscribers := subscribers s @
           [\<lparr> sink_source = stream (dsl s), sink_version = arg_version a,
              sink_compressionType = arg_compressionType a,
              sink_callback = arg_producerErrorCallback a \<rparr>] \<rparr>)"
  by (auto simp add: to_def to_executor_def Let_def PRODUCE_TYPES_def bind_fields_def)

lemma to_cases:
  obtains (bound) "produceAsTopic (dsl s)"
  | (invalid) "\<not> produceAsTopic (dsl s)"
      "normalized_type (arg_produceType a) \<notin> {''send'', ''buffer'', ''buffer_format''}"
  | (source) "\<not> produceAsTopic (dsl s)"
      "normalized_type (arg_produceType a) \<in> {''send'', ''buffer'', ''buffer_format''}"
      "\<not> isClone (dsl s)"
  | (orphan) "\<not> produceAsTopic (dsl s)"
      "normalized_type (arg_produceType a) \<in> {''send'', ''buffer'', ''buffer_format''}"
      "isClone (dsl s)"
      "kafka (dsl s) = None \<or> (\<exists>k. kafka (dsl s) = Some k \<and> \<not> kc_setupProducer k)"
  | (clone) k where "\<not> produceAsTopic (dsl s)"
      "normalized_type (arg_produceType a) \<in> {''send'', ''buffer'', ''buffer_format''}"
      "isClone (dsl s)" "kafka (dsl s) = Some k" "kc_setupProducer k"
  by (cases "kafka (dsl s)") blast+

lemma example_source_constructed:
  "constructor (Some ''streams-file-input'') (Some example_storage) (Some example_client) False
     = Inr example_source"
  by (simp add: constructor_def example_storage_def example_client_def example_source_def)

section \<open>Binding a handle to its output\<close>

text \<open>
  Claim C1, as the code has it. A call of \<open>to\<close> that gets past the produce type check binds
  the handle, whether the call then resolves, waits for the producer or fails for a clone
  without producer setup: every later call of \<open>to\<close> on that handle is rejected with the
  "already been called" error and changes nothing. A call rejected for its produce type
  changes nothing either, so the handle stays unbound. A bound handle stays bound.
\<close>

theorem to_binds_once:
  assumes "to a1 s = (r1, s1)"
  shows "(produceAsTopic (dsl s)
            \<or> normalized_type (arg_produceType a1) \<in> {''send'', ''buffer'', ''buffer_format''}
          \<longrightarrow> to a2 s1 = (Inr (Rejected already_called), s1))
       \<and> (\<not> produceAsTopic (dsl s)
            \<and> normalized_type (arg_produceType a1) \<notin> {''send'', ''buffer'', ''buffer_format''}
          \<longrightarrow> r1 = Inr (Rejected unsupported_type) \<and> s1 = s)
       \<and> (produceAsTopic (dsl s) \<longrightarrow> produceAsTopic (dsl s1))"
proof (cases rule: to_cases [where s = s and a = a1])
  case bound
  with assms show ?thesis by (simp add: to_bound)
next
  case invalid
  with assms show ?thesis by (simp add: to_invalid)
next
  case source
  with assms have "produceAsTopic (dsl s1)" by (auto simp add: to_source bind_fields_def)
  with source show ?thesis by (simp add: to_bound)
next
  case orphan
  with assms have "produceAsTopic (dsl s1)" by (auto simp add: to_clone_orphan bind_fields_def)
  with orphan show ?thesis by (simp add: to_bound)
next
  case (clone k)
  with assms have "produceAsTopic (dsl s1)" by (auto simp add: to_clone bind_fields_def)
  with clone show ?thesis by (simp add: to_bound)
qed

text \<open>
  On a clone without a broker client the first call fails and the second is rejected as a
  second call; after a call with the produce type \<open>bogus\<close> the handle is as before.
\<close>

theorem to_binds_once_witness:
  "normalized_type (arg_produceType (to_defaults ''out'')) \<in> {''send'', ''buffer'', ''buffer_format''}
   \<and> fst (to (to_defaults ''out'') (start orphan_clone)) = Inr (Rejected clone_without_producer)
   \<and> fst (to (to_defaults ''again'') (snd (to (to_defaults ''out'') (start orphan_clone))))
       = Inr (Rejected already_called)
   \<and> to ((to_defaults ''out'')\<lparr>arg_produceType := Some ''bogus''\<rparr>) (start example_source)
       = (Inr (Rejected unsupported_type), start example_source)"
proof -
  let ?a = "to_defaults ''out''"
  let ?b = "(to_defaults ''out'')\<lparr>arg_produceType := Some ''bogus''\<rparr>"
  have n: "normalized_type (arg_produceType ?a) \<in> {''send'', ''buffer'', ''buffer_format''}"
    by (simp add: to_defaults_def normalized_send)
  have u: "\<not> produceAsTopic (dsl (start orphan_clone))" "isClone (dsl (start orphan_clone))"
    "kafka (dsl (start orphan_clone)) = None"
    by (simp_all add: start_def orphan_clone_def example_source_def)
  have f: "fst (to ?a (start orphan_clone)) = Inr (Rejected clone_without_producer)"
    using u n by (simp add: to_clone_orphan)
  obtain r1 s1 where h: "to ?a (start orphan_clone) = (r1, s1)"
    by (cases "to ?a (start orphan_clone)")
  from to_binds_once [OF h, of "to_defaults ''again''"] n
  have "to (to_defaults ''again'') s1 = (Inr (Rejected already_called), s1)" by blast
  with h have g: "fst (to (to_defaults ''again'') (snd (to ?a (start orphan_clone))))
       = Inr (Rejected already_called)" by simp
  have v: "\<not> produceAsTopic (dsl (start example_source))"
    "normalized_type (arg_produceType ?b) \<notin> {''send'', ''buffer'', ''buffer_format''}"
    by (simp_all add: start_def example_source_def to_defaults_def normalized_bogus)
  obtain r2 s2 where k: "to ?b (start example_source) = (r2, s2)"
    by (cases "to ?b (start example_source)")
  from to_binds_once [OF k, of ?a] v
  have "r2 = Inr (Rejected unsupported_type) \<and> s2 = start example_source" by blast
  with k have "to ?b (start example_source) = (Inr (Rejected unsupported_type), start example_source)"
    by simp
  with n f g show ?thesis by simp
qed

text \<open>
  The claim as written fails: a first call with the produce type \<open>bogus\<close> is rejected, and
  the call after it on the same handle resolves to \<open>true\<close>.
\<close>

theorem to_binds_once_counterexample:
  "fst (to ((to_defaults ''out'')\<lparr>arg_produceType := Some ''bogus''\<rparr>) (start example_source))
     = Inr (Rejected unsupported_type)
   \<and> fst (to (to_defaults ''out'')
            (snd (to ((to_defaults ''out'')\<lparr>arg_produceType := Some ''bogus''\<rparr>)
                   (start example_source))))
     = Inr (Fulfilled True)"
  by (simp add: to_invalid to_source to_defaults_def start_def example_source_def
        normalized_bogus normalized_send)

text \<open>
  Claim C2. On a handle that is not yet bound, \<open>to\<close> decides on the lower-cased produce
  type alone: when that is none of \<open>send\<close>, \<open>buffer\<close>, \<open>buffer_format\<close> the call is
  rejected with the error whose message lists the three, and nothing changes; when it is one
  of them no such error is raised and the handle stores the lower-cased form. Lower-casing
  the request first makes no difference.
\<close>

theorem to_validates_produce_type:
  assumes "\<not> produceAsTopic (dsl s)"
  shows "(normalized_type (arg_produceType a) \<notin> {''send'', ''buffer'', ''buffer_format''} \<longrightarrow>
            to a s =
              (Inr (Rejected
                 (Error ''produceType must be a supported types: send, buffer, buffer_format.'')),
               s))
       \<and> (normalized_type (arg_produceType a) \<in> {''send'', ''buffer'', ''buffer_format''} \<longrightarrow>
            fst (to a s) \<noteq> Inr (Rejected unsupported_type)
            \<and> produceType (dsl (snd (to a s))) = normalized_type (arg_produceType a))
       \<and> normalized_type (arg_produceType a) =
           normalized_type
             (Some (toLowerCase (case arg_produceType a of None \<Rightarrow> [] | Some t \<Rightarrow> t)))"
proof (intro conjI impI)
  assume "normalized_type (arg_produceType a) \<notin> {''send'', ''buffer'', ''buffer_format''}"
  with assms show "to a s =
      (Inr (Rejected
         (Error ''produceType must be a supported types: send, buffer, buffer_format.'')), s)"
    by (simp add: to_invalid unsupported_type_message)
next
  assume v: "normalized_type (arg_produceType a) \<in> {''send'', ''buffer'', ''buffer_format''}"
  show "fst (to a s) \<noteq> Inr (Rejected unsupported_type)"
    using assms v
    by (cases rule: to_cases [where s = s and a = a])
       (auto simp add: to_source to_clone_orphan to_clone clone_without_producer_def
          unsupported_type_message)
  show "produceType (dsl (snd (to a s))) = normalized_type (arg_produceType a)"
    using assms v
    by (cases rule: to_cases [where s = s and a = a])
       (auto simp add: to_source to_clone_orphan to_clone bind_fields_def)
next
  show "normalized_type (arg_produceType a) =
          normalized_type
            (Some (toLowerCase (case arg_produceType a of None \<Rightarrow> [] | Some t \<Rightarrow> t)))"
    by (simp add: normalized_type_def toLowerCase_idem)
qed

text \<open>\<open>Buffer_FORMAT\<close> is accepted and stored as \<open>buffer_format\<close>; \<open>bogus\<close> is rejected.\<close>

theorem to_validates_produce_type_witness:
  "\<not> produceAsTopic (dsl (start example_source))
   \<and> normalized_type (Some ''Buffer_FORMAT'') \<in> {''send'', ''buffer'', ''buffer_format''}
   \<and> produceType (dsl (snd (to ((to_defaults ''out'')\<lparr>arg_produceType := Some ''Buffer_FORMAT''\<rparr>)
                               (start example_source)))) = ''buffer_format''
   \<and> normalized_type (Some ''bogus'') \<notin> {''send'', ''buffer'', ''buffer_format''}
   \<and> to ((to_defaults ''out'')\<lparr>arg_produceType := Some ''bogus''\<rparr>) (start example_source)
       = (Inr (Rejected
            (Error ''produceType must be a supported types: send, buffer, buffer_format.'')),
          start example_source)"
proof -
  have u: "\<not> produceAsTopic (dsl (start example_source))"
    by (simp add: start_def example_source_def)
  have "produceType (dsl (snd (to ((to_defaults ''out'')\<lparr>arg_produceType := Some ''Buffer_FORMAT''\<rparr>)
                               (start example_source)))) = ''buffer_format''"
    using to_validates_produce_type
      [OF u, of "(to_defaults ''out'')\<lparr>arg_produceType := Some ''Buffer_FORMAT''\<rparr>"]
    by (simp add: normalized_mixed_case)
  moreover have "to ((to_defaults ''out'')\<lparr>arg_produceType := Some ''bogus''\<rparr>) (start example_source)
       = (Inr (Rejected
            (Error ''produceType must be a supported types: send, buffer, buffer_format.'')),
          start example_source)"
    using to_validates_produce_type
      [OF u, of "(to_defaults ''out'')\<lparr>arg_produceType := Some ''bogus''\<rparr>"]
    by (simp add: normalized_bogus)
  ultimately show ?thesis using u by (simp add: normalized_mixed_case normalized_bogus)
qed

text \<open>
  Claim C3. On a clone whose broker client is absent or has no \<open>setupProducer\<close>, every call
  of \<open>to\<close> is rejected with one of the three configuration errors (the clone's own when the
  handle is unbound and the produce type valid); no consumer is attached to the stream and
  nothing is asked of the broker client.
\<close>

theorem clone_without_producer_fails:
  assumes "isClone (dsl s)"
    and "kafka (dsl s) = None \<or> (\<exists>k. kafka (dsl s) = Some k \<and> \<not> kc_setupProducer k)"
  shows "\<exists>e s'. to a s = (Inr (Rejected e), s')
           \<and> e \<in> {already_called, unsupported_type, clone_without_producer}
           \<and> (\<not> produceAsTopic (dsl s)
                \<and> normalized_type (arg_produceType a) \<in> {''send'', ''buffer'', ''buffer_format''}
                \<longrightarrow> e = clone_without_producer)
           \<and> subscribers s' = subscribers s \<and> broker s' = broker s \<and> reported s' = reported s"
proof (cases rule: to_cases [where s = s and a = a])
  case bound
  then show ?thesis by (simp add: to_bound)
next
  case invalid
  then show ?thesis by (simp add: to_invalid)
next
  case source
  with assms show ?thesis by simp
next
  case orphan
  then show ?thesis by (simp add: to_clone_orphan)
next
  case (clone k)
  with assms show ?thesis by auto
qed

theorem clone_without_producer_fails_witness:
  "isClone (dsl (start orphan_clone)) \<and> kafka (dsl (start orphan_clone)) = None
   \<and> (\<exists>s'. to (to_defaults ''out'') (start orphan_clone)
              = (Inr (Rejected clone_without_producer), s')
            \<and> subscribers s' = [] \<and> broker s' = [] \<and> reported s' = [])"
proof -
  have u: "isClone (dsl (start orphan_clone))" "kafka (dsl (start orphan_clone)) = None"
    "\<not> produceAsTopic (dsl (start orphan_clone))"
    "subscribers (start orphan_clone) = []" "broker (start orphan_clone) = []"
    "reported (start orphan_clone) = []"
    by (simp_all add: start_def orphan_clone_def example_source_def)
  have n: "normalized_type (arg_produceType (to_defaults ''out'')) \<in> {''send'', ''buffer'', ''buffer_format''}"
    by (simp add: to_defaults_def normalized_send)
  from clone_without_producer_fails [of "start orphan_clone" "to_defaults ''out''"] u n
  show ?thesis by auto
qed

text \<open>
  Claim C10. When \<open>to\<close> is called on an unbound clone with a valid produce type and the
  broker client is absent or has no \<open>setupProducer\<close>, the call is rejected, and the handle
  it leaves is not the one it found: the bound flag is set and topic, partitions count,
  produce type, version and compression type are those of the call.
\<close>

theorem failed_clone_binding_leaves_bound:
  assumes "\<not> produceAsTopic (dsl s)"
    and "normalized_type (arg_produceType a) \<in> {''send'', ''buffer'', ''buffer_format''}"
    and "isClone (dsl s)"
    and "kafka (dsl s) = None \<or> (\<exists>k. kafka (dsl s) = Some k \<and> \<not> kc_setupProducer k)"
  shows "\<exists>s'. to a s = (Inr (Rejected clone_without_producer), s')
           \<and> s' \<noteq> s
           \<and> produceAsTopic (dsl s')
           \<and> outputTopicName (dsl s') = Some (arg_topic a)
           \<and> outputPartitionsCount (dsl s') = arg_outputPartitionsCount a
           \<and> produceType (dsl s') = normalized_type (arg_produceType a)
           \<and> produceVersion (dsl s') = arg_version a
           \<and> produceCompressionType (dsl s') = arg_compressionType a"
proof -
  have "to a s = (Inr (Rejected clone_without_producer), s\<lparr>dsl := bind_fields a (dsl s)\<rparr>)"
    using assms by (rule to_clone_orphan)
  moreover have "s\<lparr>dsl := bind_fields a (dsl s)\<rparr> \<noteq> s"
  proof
    assume "s\<lparr>dsl := bind_fields a (dsl s)\<rparr> = s"
    then have "produceAsTopic (dsl (s\<lparr>dsl := bind_fields a (dsl s)\<rparr>)) = produceAsTopic (dsl s)"
      by simp
    with assms(1) show False by (simp add: bind_fields_def)
  qed
  ultimately show ?thesis by (simp add: bind_fields_def)
qed

text \<open>A clone that was handed an object without \<open>setupProducer\<close>, bound to \<open>out\<close> with 3 partitions.\<close>

theorem failed_clone_binding_leaves_bound_witness:
  "\<not> produceAsTopic (dsl (start (example_clone\<lparr>kafka := Some foreign_client\<rparr>)))
   \<and> (\<exists>s'. to ((to_defaults ''out'')\<lparr>arg_outputPartitionsCount := 3\<rparr>)
               (start (example_clone\<lparr>kafka := Some foreign_client\<rparr>))
              = (Inr (Rejected clone_without_producer), s')
            \<and> produceAsTopic (dsl s')
            \<and> outputTopicName (dsl s') = Some ''out''
            \<and> outputPartitionsCount (dsl s') = 3
            \<and> produceType (dsl s') = ''send'')"
proof -
  let ?s = "start (example_clone\<lparr>kafka := Some foreign_client\<rparr>)"
  let ?a = "(to_defaults ''out'')\<lparr>arg_outputPartitionsCount := 3\<rparr>"
  have u: "\<not> produceAsTopic (dsl ?s)" "isClone (dsl ?s)"
    by (simp_all add: start_def example_clone_def example_source_def)
  have k: "kafka (dsl ?s) = None \<or> (\<exists>k. kafka (dsl ?s) = Some k \<and> \<not> kc_setupProducer k)"
    by (simp add: start_def example_clone_def foreign_client_def)
  have n: "normalized_type (arg_produceType ?a) \<in> {''send'', ''buffer'', ''buffer_format''}"
    "normalized_type (arg_produceType ?a) = ''send''" "arg_topic ?a = ''out''"
    "arg_outputPartitionsCount ?a = 3"
    by (simp_all add: to_defaults_def normalized_send)
  from failed_clone_binding_leaves_bound [OF u(1) n(1) u(2) k] n(2,3,4) u(1)
  show ?thesis by auto
qed

text \<open>
  Claim C7, as the code has it. The constructor throws its two errors at the call. \<open>to\<close>
  never throws: it returns a promise in every case, and each of its three configuration
  errors is the rejection of that promise.
\<close>

theorem fatal_errors_delivery:
  "(\<not> clone \<and> (kafka_arg = None \<or> (\<exists>k. kafka_arg = Some k \<and> \<not> kc_instance k)) \<longrightarrow>
      constructor topic_arg storage_arg kafka_arg clone
        = Inl (Error ''kafka has to be an instance of KafkaClient.''))
   \<and> ((clone \<or> (\<exists>k. kafka_arg = Some k \<and> kc_instance k))
        \<and> (storage_arg = None \<or> (\<exists>st. storage_arg = Some st \<and> \<not> ks_instance st)) \<longrightarrow>
      constructor topic_arg storage_arg kafka_arg clone
        = Inl (Error ''storage hsa to be an instance of KStorage.''))
   \<and> (\<exists>p. fst (to a s) = Inr p)
   \<and> (produceAsTopic (dsl s) \<longrightarrow> fst (to a s) = Inr (Rejected already_called))
   \<and> (\<not> produceAsTopic (dsl s)
        \<and> normalized_type (arg_produceType a) \<notin> {''send'', ''buffer'', ''buffer_format''} \<longrightarrow>
      fst (to a s) = Inr (Rejected unsupported_type))
   \<and> (\<not> produceAsTopic (dsl s)
        \<and> normalized_type (arg_produceType a) \<in> {''send'', ''buffer'', ''buffer_format''}
        \<and> isClone (dsl s)
        \<and> (kafka (dsl s) = None \<or> (\<exists>k. kafka (dsl s) = Some k \<and> \<not> kc_setupProducer k)) \<longrightarrow>
      fst (to a s) = Inr (Rejected clone_without_producer))"
proof (intro conjI impI)
  assume "\<not> clone \<and> (kafka_arg = None \<or> (\<exists>k. kafka_arg = Some k \<and> \<not> kc_instance k))"
  then show "constructor topic_arg storage_arg kafka_arg clone
        = Inl (Error ''kafka has to be an instance of KafkaClient.'')"
    by (auto simp add: constructor_def)
next
  assume "(clone \<or> (\<exists>k. kafka_arg = Some k \<and> kc_instance k))
        \<and> (storage_arg = None \<or> (\<exists>st. storage_arg = Some st \<and> \<not> ks_instance st))"
  then show "constructor topic_arg storage_arg kafka_arg clone
        = Inl (Error ''storage hsa to be an instance of KStorage.'')"
    by (auto simp add: constructor_def)
next
  show "\<exists>p. fst (to a s) = Inr p"
    by (simp add: to_def split: prod.split)
next
  assume "produceAsTopic (dsl s)"
  then show "fst (to a s) = Inr (Rejected already_called)" by (simp add: to_bound)
next
  assume "\<not> produceAsTopic (dsl s)
        \<and> normalized_type (arg_produceType a) \<notin> {''send'', ''buffer'', ''buffer_format''}"
  then show "fst (to a s) = Inr (Rejected unsupported_type)" by (simp add: to_invalid)
next
  assume "\<not> produceAsTopic (dsl s)
        \<and> normalized_type (arg_produceType a) \<in> {''send'', ''buffer'', ''buffer_format''}
        \<and> isClone (dsl s)
        \<and> (kafka (dsl s) = None \<or> (\<exists>k. kafka (dsl s) = Some k \<and> \<not> kc_setupProducer k))"
  then show "fst (to a s) = Inr (Rejected clone_without_producer)" by (simp add: to_clone_orphan)
qed

text \<open>
  A source handle constructed without a broker client, a handle constructed without a store,
  and the three rejections of \<open>to\<close>: on a bound handle, with the produce type \<open>bogus\<close>, and
  on a clone without a broker client.
\<close>

theorem fatal_errors_delivery_witness:
  "constructor (Some ''in'') (Some example_storage) None False
     = Inl (Error ''kafka has to be an instance of KafkaClient.'')
   \<and> constructor (Some ''in'') None (Some example_client) False
     = Inl (Error ''storage hsa to be an instance of KStorage.'')
   \<and> fst (to (to_defaults ''out'') (start (example_source\<lparr>produceAsTopic := True\<rparr>)))
     = Inr (Rejected already_called)
   \<and> fst (to ((to_defaults ''out'')\<lparr>arg_produceType := Some ''bogus''\<rparr>) (start example_source))
     = Inr (Rejected unsupported_type)
   \<and> fst (to (to_defaults ''out'') (start orphan_clone))
     = Inr (Rejected clone_without_producer)"
proof -
  have c1: "constructor (Some ''in'') (Some example_storage) None False
     = Inl (Error ''kafka has to be an instance of KafkaClient.'')"
    using fatal_errors_delivery
      [where clone = False and kafka_arg = None and topic_arg = "Some ''in''"
         and storage_arg = "Some example_storage"]
    by simp
  have c2: "constructor (Some ''in'') None (Some example_client) False
     = Inl (Error ''storage hsa to be an instance of KStorage.'')"
    using fatal_errors_delivery
      [where clone = False and kafka_arg = "Some example_client" and topic_arg = "Some ''in''"
         and storage_arg = None]
    by (simp add: example_client_def)
  have t1: "fst (to (to_defaults ''out'') (start (example_source\<lparr>produceAsTopic := True\<rparr>)))
     = Inr (Rejected already_called)"
    using fatal_errors_delivery
      [where a = "to_defaults ''out''" and s = "start (example_source\<lparr>produceAsTopic := True\<rparr>)"]
    by (simp add: start_def)
  have t2: "fst (to ((to_defaults ''out'')\<lparr>arg_produceType := Some ''bogus''\<rparr>) (start example_source))
     = Inr (Rejected unsupported_type)"
    using fatal_errors_delivery
      [where a = "(to_defaults ''out'')\<lparr>arg_produceType := Some ''bogus''\<rparr>"
         and s = "start example_source"]
    by (simp add: start_def example_source_def normalized_bogus)
  have t3: "fst (to (to_defaults ''out'') (start orphan_clone))
     = Inr (Rejected clone_without_producer)"
    using fatal_errors_delivery [where a = "to_defaults ''out''" and s = "start orphan_clone"]
    by (simp add: start_def orphan_clone_def example_source_def to_defaults_def normalized_send)
  from c1 c2 t1 t2 t3 show ?thesis by simp
qed

text \<open>
  The claim as written fails: a second call of \<open>to\<close> does not throw; it returns a promise,
  and the configuration error is that promise's rejection.
\<close>

theorem fatal_errors_delivery_counterexample:
  "fst (to (to_defaults ''out'') (start (example_source\<lparr>produceAsTopic := True\<rparr>)))
     = Inr (Rejected already_called)
   \<and> fst (to (to_defaults ''out'') (start (example_source\<lparr>produceAsTopic := True\<rparr>)))
     \<noteq> Inl already_called"
  by (simp add: to_bound start_def)

section \<open>The envelope round trip\<close>

lemma envelope_roundtrip:
  assumes "getId = None \<or> (\<exists>g i. getId = Some g \<and> g v = Inr i)"
  shows "\<exists>ident. (getId = None \<longrightarrow> ident = JStr (fresh_uuid ev))
           \<and> (\<forall>g. getId = Some g \<longrightarrow> g v = Inr ident)
           \<and> mapToFormat_etl type getId ev v
               = Inr (JObj [(''payload'', v), (''time'', JStr (now_iso ev)),
                            (''type'', type), (''id'', ident)])
           \<and> mapFromFormat_etl parse
                (JObj [(''payload'', v), (''time'', JStr (now_iso ev)),
                       (''type'', type), (''id'', ident)])
               = Inr v"
  using assms by (auto simp add: mapToFormat_etl_def mapFromFormat_etl_def)

text \<open>
  Claim C4, as the code has it. For every payload \<open>v\<close> on which the caller's identifier
  extractor returns (always so when no extractor is given): the transform of \<open>mapToFormat\<close>
  gives the envelope with \<open>v\<close> as payload, the clock reading as time, the given type, and as
  id the extractor's result or a fresh identifier; the transform of \<open>mapFromFormat\<close> gives
  exactly \<open>v\<close> back from it, whatever \<open>JSON.parse\<close> does. The two calls install the two
  transforms on top of the handle's stream, so an event \<open>v\<close> that comes out of the stream
  before the calls comes out unchanged after them.
\<close>

theorem format_roundtrip:
  assumes "getId = None \<or> (\<exists>g i. getId = Some g \<and> g v = Inr i)"
  shows "(\<exists>ident. (getId = None \<longrightarrow> ident = JStr (fresh_uuid ev))
           \<and> (\<forall>g. getId = Some g \<longrightarrow> g v = Inr ident)
           \<and> mapToFormat_etl type getId ev v
               = Inr (JObj [(''payload'', v), (''time'', JStr (now_iso ev)),
                            (''type'', type), (''id'', ident)])
           \<and> mapFromFormat_etl parse
                (JObj [(''payload'', v), (''time'', JStr (now_iso ev)),
                       (''type'', type), (''id'', ident)])
               = Inr v)
       \<and> stream (mapFromFormat parse (mapToFormat type getId ev this))
           = MapS (mapFromFormat_etl parse) (MapS (mapToFormat_etl type getId ev) (stream this))
       \<and> (\<forall>st x s' st' sg. push (stream this) st x = Some (s', st', Some v, sg) \<longrightarrow>
            (\<exists>s''. push (stream (mapFromFormat parse (mapToFormat type getId ev this))) st x
                     = Some (s'', st', Some v, sg)))"
proof (intro conjI allI impI)
  show "\<exists>ident. (getId = None \<longrightarrow> ident = JStr (fresh_uuid ev))
           \<and> (\<forall>g. getId = Some g \<longrightarrow> g v = Inr ident)
           \<and> mapToFormat_etl type getId ev v
               = Inr (JObj [(''payload'', v), (''time'', JStr (now_iso ev)),
                            (''type'', type), (''id'', ident)])
           \<and> mapFromFormat_etl parse
                (JObj [(''payload'', v), (''time'', JStr (now_iso ev)),
                       (''type'', type), (''id'', ident)])
               = Inr v"
    using assms by (rule envelope_roundtrip)
next
  show "stream (mapFromFormat parse (mapToFormat type getId ev this))
           = MapS (mapFromFormat_etl parse) (MapS (mapToFormat_etl type getId ev) (stream this))"
    by (simp add: mapFromFormat_def mapToFormat_def map_dsl_def)
next
  fix st x s' st' sg
  assume p: "push (stream this) st x = Some (s', st', Some v, sg)"
  obtain envelope where e: "mapToFormat_etl type getId ev v = Inr envelope"
    "mapFromFormat_etl parse envelope = Inr v"
    using envelope_roundtrip [OF assms, of ev type parse] by blast
  show "\<exists>s''. push (stream (mapFromFormat parse (mapToFormat type getId ev this))) st x
                     = Some (s'', st', Some v, sg)"
    using p e by (simp add: mapFromFormat_def mapToFormat_def map_dsl_def)
qed

text \<open>
  The payload \<open>{id: 7, name: "x"}\<close> with the extractor \<open>message -> message.id\<close>: the
  envelope carries the id 7, and the payload written to a fresh handle after the two calls
  comes out as it went in.
\<close>

theorem format_roundtrip_witness:
  "message_id (JObj [(''id'', JNum 7), (''name'', JStr ''x'')]) = Inr (JNum 7)
   \<and> mapToFormat_etl (JStr ''unknown-publish'') (Some message_id)
        \<lparr>now_iso = ''2017-01-01T00:00:00.000Z'', fresh_uuid = ''u-1''\<rparr>
        (JObj [(''id'', JNum 7), (''name'', JStr ''x'')])
       = Inr (JObj [(''payload'', JObj [(''id'', JNum 7), (''name'', JStr ''x'')]),
                    (''time'', JStr ''2017-01-01T00:00:00.000Z''),
                    (''type'', JStr ''unknown-publish''), (''id'', JNum 7)])
   \<and> (\<exists>s''. push (stream (mapFromFormat (\<lambda>m. Inl (Error ''SyntaxError''))
                     (mapToFormat (JStr ''unknown-publish'') (Some message_id)
                        \<lparr>now_iso = ''2017-01-01T00:00:00.000Z'', fresh_uuid = ''u-1''\<rparr>
                        example_source)))
                 [] (JObj [(''id'', JNum 7), (''name'', JStr ''x'')])
              = Some (s'', [], Some (JObj [(''id'', JNum 7), (''name'', JStr ''x'')]), Continue))"
proof -
  let ?v = "JObj [(''id'', JNum 7), (''name'', JStr ''x'')]"
  let ?ev = "\<lparr>now_iso = ''2017-01-01T00:00:00.000Z'', fresh_uuid = ''u-1''\<rparr>"
  let ?parse = "\<lambda>m::jsval. (Inl (Error ''SyntaxError'') :: js_error + jsval)"
  have i: "message_id ?v = Inr (JNum 7)"
    by simp
  have g: "Some message_id = None \<or> (\<exists>g i. Some message_id = Some g \<and> g ?v = Inr i)"
    using i by simp
  note r = format_roundtrip [OF g, of ?ev "JStr ''unknown-publish''" ?parse example_source]
  from r obtain ident where
    d: "\<forall>g. Some message_id = Some g \<longrightarrow> g ?v = Inr ident"
    and e: "mapToFormat_etl (JStr ''unknown-publish'') (Some message_id) ?ev ?v
              = Inr (JObj [(''payload'', ?v), (''time'', JStr (now_iso ?ev)),
                           (''type'', JStr ''unknown-publish''), (''id'', ident)])"
    by blast
  from d i have "ident = JNum 7" by simp
  with e have env: "mapToFormat_etl (JStr ''unknown-publish'') (Some message_id) ?ev ?v
       = Inr (JObj [(''payload'', ?v), (''time'', JStr ''2017-01-01T00:00:00.000Z''),
                    (''type'', JStr ''unknown-publish''), (''id'', JNum 7)])"
    by simp
  have p: "push (stream example_source) [] ?v = Some (FromEvent, [], Some ?v, Continue)"
    by (simp add: example_source_def)
  from r have "\<forall>st x s' st' sg. push (stream example_source) st x = Some (s', st', Some ?v, sg) \<longrightarrow>
            (\<exists>s''. push (stream (mapFromFormat ?parse
                     (mapToFormat (JStr ''unknown-publish'') (Some message_id) ?ev
                        example_source))) st x
                     = Some (s'', st', Some ?v, sg))"
    by blast
  with p have "\<exists>s''. push (stream (mapFromFormat ?parse
                     (mapToFormat (JStr ''unknown-publish'') (Some message_id) ?ev
                        example_source))) [] ?v
                     = Some (s'', [], Some ?v, Continue)"
    by blast
  with i env show ?thesis by simp
qed

text \<open>
  The claim as written fails: \<open>null\<close> is a JSON value, and with the extractor
  \<open>message -> message.id\<close> the transform of \<open>mapToFormat\<close> throws on it. Written to a fresh
  handle after the two calls, \<open>null\<close> fails the stream and nothing comes out.
\<close>

theorem format_roundtrip_counterexample:
  "mapToFormat_etl (JStr ''unknown-publish'') (Some message_id)
      \<lparr>now_iso = ''2017-01-01T00:00:00.000Z'', fresh_uuid = ''u-1''\<rparr> JNull
     = Inl (TypeError ''Cannot read property id of null'')
   \<and> map_option (snd \<circ> snd)
        (push (stream (mapFromFormat (\<lambda>m. Inl (Error ''SyntaxError''))
                 (mapToFormat (JStr ''unknown-publish'') (Some message_id)
                    \<lparr>now_iso = ''2017-01-01T00:00:00.000Z'', fresh_uuid = ''u-1''\<rparr>
                    example_source)))
           [] JNull)
     = Some (None, Fail (TypeError ''Cannot read property id of null''))"
  by (simp add: mapToFormat_etl_def mapFromFormat_def mapToFormat_def map_dsl_def
        example_source_def)

section \<open>Operators only rewrap the stream\<close>

text \<open>
  Claim C6. A call of any of the nineteen operators on the handle at reference \<open>r\<close> returns
  \<open>r\<close>; the heap changes at \<open>r\<close> only, and the handle there differs from the one before in
  its stream alone: topic name, clone flag, store, broker client and all binding fields are
  as they were.
\<close>

theorem operators_rewrap_only:
  assumes "H r = Some this"
  shows "\<exists>this'. call_op op r H = (r, H(r \<mapsto> this'))
          \<and> this' = this\<lparr>stream := stream this'\<rparr>
          \<and> topicName this' = topicName this
          \<and> isClone this' = isClone this
          \<and> storage this' = storage this
          \<and> kafka this' = kafka this
          \<and> produceAsTopic this' = produceAsTopic this
          \<and> outputTopicName this' = outputTopicName this
          \<and> outputPartitionsCount this' = outputPartitionsCount this
          \<and> produceType this' = produceType this
          \<and> produceVersion this' = produceVersion this
          \<and> produceCompressionType this' = produceCompressionType this"
proof -
  have "apply_op op this = this\<lparr>stream := stream (apply_op op this)\<rparr>"
    by (cases op)
       (simp_all add: map_dsl_def asyncMap_def filter_dsl_def tap_def scan_def throttle_def
          delay_def debounce_def skip_def take_dsl_def skipWhile_def takeWhile_dsl_def
          skipRepeats_def skipRepeatsWith_def slice_def constant_dsl_def timestamp_def
          until_def since_def split: option.split)
  then obtain t where t: "apply_op op this = this\<lparr>stream := t\<rparr>" by blast
  show ?thesis
    using assms by (intro exI [of _ "this\<lparr>stream := t\<rparr>"]) (simp add: call_op_def t)
qed

text \<open>\<open>source.skip(7)\<close> on a heap that holds the source handle at reference 0 and a clone at 1.\<close>

theorem operators_rewrap_only_witness:
  "[0 \<mapsto> example_source, 1 \<mapsto> example_clone] (0::nat) = Some example_source
   \<and> (\<exists>this'. call_op (Op_skip 7) 0 [0 \<mapsto> example_source, 1 \<mapsto> example_clone]
                 = (0, [0 \<mapsto> this', 1 \<mapsto> example_clone])
              \<and> this' = example_source\<lparr>stream := stream this'\<rparr>
              \<and> topicName this' = ''streams-file-input''
              \<and> produceAsTopic this' = False)"
proof -
  have h: "[0 \<mapsto> example_source, 1 \<mapsto> example_clone] (0::nat) = Some example_source"
    by simp
  have m: "\<And>t. [0 \<mapsto> example_source, 1 \<mapsto> example_clone](0::nat \<mapsto> t) = [0 \<mapsto> t, 1 \<mapsto> example_clone]"
    by (rule ext) simp
  have e: "topicName example_source = ''streams-file-input''" "produceAsTopic example_source = False"
    by (simp_all add: example_source_def)
  from operators_rewrap_only
    [where H = "[0 \<mapsto> example_source, 1 \<mapsto> example_clone]" and r = 0
       and this = example_source and op = "Op_skip 7"] h
  obtain this' where
    "call_op (Op_skip 7) 0 [0 \<mapsto> example_source, 1 \<mapsto> example_clone]
       = (0, [0 \<mapsto> example_source, 1 \<mapsto> example_clone](0 \<mapsto> this'))"
    "this' = example_source\<lparr>stream := stream this'\<rparr>"
    "topicName this' = topicName example_source"
    "produceAsTopic this' = produceAsTopic example_source"
    by blast
  with m e h show ?thesis by auto
qed

section \<open>Dispatch of terminal events\<close>

lemma consume_run:
  assumes "kafka (dsl s) = Some client"
    and "\<And>m. produce_call (dsl s) k m = Some (f m)"
  shows "consume k ms s =
           Inr (s\<lparr> broker := broker s @ map f ms,
                   reported := reported s @ concat (map (\<lambda>m. caught client k (f m)) ms) \<rparr>)"
  using assms
proof (induction ms arbitrary: s)
  case Nil
  then show ?case by simp
next
  case (Cons m ms)
  let ?s1 = "s\<lparr> broker := broker s @ [f m], reported := reported s @ caught client k (f m) \<rparr>"
  have d: "dispatch k m s = Inr ?s1"
    using Cons.prems by (simp add: dispatch_def)
  have "consume k ms ?s1 =
          Inr (?s1\<lparr> broker := broker ?s1 @ map f ms,
                    reported := reported ?s1 @ concat (map (\<lambda>m. caught client k (f m)) ms) \<rparr>)"
    using Cons.prems by (intro Cons.IH) simp_all
  with d show ?case by simp
qed

lemma caught_all:
  "concat (map (caught client k) cs) =
     (if sink_callback k then List.map_filter (kc_rejects client) cs else [])"
  by (induction cs) (simp_all add: caught_def List.map_filter_simps split: option.split)

text \<open>
  Claim C5. When \<open>to\<close> on a clone has handed the producer setup to the broker client, one
  consumer is attached, and over any sequence of terminal events it runs to the end: it makes
  exactly one call on the client per event, in order, the call that the bound produce type
  selects (\<open>send\<close>, \<open>buffer\<close> with the compression type, \<open>bufferFormat\<close> with version and
  compression type). The errors of the calls that fail are handed to the error callback, in
  order, when one was supplied, and to nobody otherwise; nothing else changes.
\<close>

theorem dispatch_best_effort:
  assumes "to a s = (Inr Pending, s')"
  shows "\<exists>k client calls.
           subscribers s' = subscribers s @ [k]
         \<and> kafka (dsl s') = Some client
         \<and> produceType (dsl s') = normalized_type (arg_produceType a)
         \<and> calls = map (\<lambda>m. if produceType (dsl s') = ''send''
                              then Send (Some (arg_topic a)) m
                              else if produceType (dsl s') = ''buffer''
                              then Buffer (Some (arg_topic a)) JNull m (arg_compressionType a)
                              else BufferFormat (Some (arg_topic a)) JNull m
                                     (arg_version a) (arg_compressionType a)) ms
         \<and> consume k ms s' =
             Inr (s'\<lparr> broker := broker s' @ calls,
                      reported := reported s' @
                        (if arg_producerErrorCallback a
                         then List.map_filter (kc_rejects client) calls else []) \<rparr>)"
proof (cases rule: to_cases [where s = s and a = a])
  case bound
  with assms show ?thesis by (simp add: to_bound)
next
  case invalid
  with assms show ?thesis by (simp add: to_invalid)
next
  case source
  with assms show ?thesis by (simp add: to_source)
next
  case orphan
  with assms show ?thesis by (simp add: to_clone_orphan)
next
  case (clone client)
  let ?k = "\<lparr> sink_source = stream (dsl s), sink_version = arg_version a,
              sink_compressionType = arg_compressionType a,
              sink_callback = arg_producerErrorCallback a \<rparr>"
  let ?f = "\<lambda>m. if produceType (dsl s') = ''send''
                 then Send (Some (arg_topic a)) m
                 else if produceType (dsl s') = ''buffer''
                 then Buffer (Some (arg_topic a)) JNull m (arg_compressionType a)
                 else BufferFormat (Some (arg_topic a)) JNull m
                        (arg_version a) (arg_compressionType a)"
  have s': "s' = s\<lparr> dsl := bind_fields a (dsl s),
                    broker := broker s @
                      [SetupProducer (Some (arg_topic a)) (arg_outputPartitionsCount a)],
                    subscribers := subscribers s @ [?k] \<rparr>"
    using assms clone by (simp add: to_clone)
  have k: "kafka (dsl s') = Some client"
    using clone by (simp add: s' bind_fields_def)
  have pt: "produceType (dsl s') = normalized_type (arg_produceType a)"
    by (simp add: s' bind_fields_def)
  have pc: "\<And>m. produce_call (dsl s') ?k m = Some (?f m)"
    using clone(2) by (auto simp add: produce_call_def s' bind_fields_def)
  have "consume ?k ms s' =
          Inr (s'\<lparr> broker := broker s' @ map ?f ms,
                   reported := reported s' @ concat (map (\<lambda>m. caught client ?k (?f m)) ms) \<rparr>)"
    using k pc by (rule consume_run)
  moreover have "concat (map (\<lambda>m. caught client ?k (?f m)) ms)
      = (if arg_producerErrorCallback a
         then List.map_filter (kc_rejects client) (map ?f ms) else [])"
    using caught_all [of client ?k "map ?f ms"] by (simp add: comp_def)
  ultimately have "consume ?k ms s' =
          Inr (s'\<lparr> broker := broker s' @ map ?f ms,
                   reported := reported s' @
                     (if arg_producerErrorCallback a
                      then List.map_filter (kc_rejects client) (map ?f ms) else []) \<rparr>)"
    by simp
  moreover have "subscribers s' = subscribers s @ [?k]" by (simp add: s')
  ultimately show ?thesis using k pt by blast
qed

text \<open>
  A clone bound in mode \<open>send\<close> with an error callback, and the events 1, 2, 3 on a client
  whose send of 2 fails: three sends, one error reported.
\<close>

theorem dispatch_best_effort_witness:
  "\<exists>s' k. to ((to_defaults ''out'')\<lparr>arg_producerErrorCallback := True\<rparr>) (start example_clone)
            = (Inr Pending, s')
        \<and> subscribers s' = [k]
        \<and> consume k [JNum 1, JNum 2, JNum 3] s' =
            Inr (s'\<lparr> broker := [SetupProducer (Some ''out'') 1, Send (Some ''out'') (JNum 1),
                                  Send (Some ''out'') (JNum 2), Send (Some ''out'') (JNum 3)],
                     reported := [Error ''broker down''] \<rparr>)"
proof -
  let ?a = "(to_defaults ''out'')\<lparr>arg_producerErrorCallback := True\<rparr>"
  let ?s = "start example_clone"
  have u: "\<not> produceAsTopic (dsl ?s)" "isClone (dsl ?s)" "kafka (dsl ?s) = Some example_client"
    "kc_setupProducer example_client"
    by (simp_all add: start_def example_clone_def example_source_def example_client_def)
  have n: "normalized_type (arg_produceType ?a) \<in> {''send'', ''buffer'', ''buffer_format''}"
    "normalized_type (arg_produceType ?a) = ''send''"
    by (simp_all add: to_defaults_def normalized_send)
  obtain s' where h: "to ?a ?s = (Inr Pending, s')"
    using to_clone [OF u(1) n(1) u(2) u(3) u(4)] by blast
  have b: "broker s' = [SetupProducer (Some ''out'') 1]" "reported s' = []"
    "subscribers ?s = []" "kafka (dsl s') = Some example_client" "arg_topic ?a = ''out''"
    "arg_producerErrorCallback ?a"
    using h to_clone [OF u(1) n(1) u(2) u(3) u(4)]
    by (auto simp add: start_def to_defaults_def bind_fields_def example_clone_def
          example_source_def)
  from dispatch_best_effort [OF h, of "[JNum 1, JNum 2, JNum 3]"]
  obtain k client calls where
    c: "subscribers s' = subscribers ?s @ [k]" "kafka (dsl s') = Some client"
       "produceType (dsl s') = normalized_type (arg_produceType ?a)"
       "calls = map (\<lambda>m. if produceType (dsl s') = ''send''
                              then Send (Some (arg_topic ?a)) m
                              else if produceType (dsl s') = ''buffer''
                              then Buffer (Some (arg_topic ?a)) JNull m (arg_compressionType ?a)
                              else BufferFormat (Some (arg_topic ?a)) JNull m
                                     (arg_version ?a) (arg_compressionType ?a))
                  [JNum 1, JNum 2, JNum 3]"
       "consume k [JNum 1, JNum 2, JNum 3] s' =
             Inr (s'\<lparr> broker := broker s' @ calls,
                      reported := reported s' @
                        (if arg_producerErrorCallback ?a
                         then List.map_filter (kc_rejects client) calls else []) \<rparr>)"
    by blast
  have cl: "client = example_client" using c(2) b(4) by simp
  have calls: "calls = [Send (Some ''out'') (JNum 1), Send (Some ''out'') (JNum 2),
                        Send (Some ''out'') (JNum 3)]"
    using c(3,4) n(2) b(5) by simp
  have "consume k [JNum 1, JNum 2, JNum 3] s' =
            Inr (s'\<lparr> broker := [SetupProducer (Some ''out'') 1, Send (Some ''out'') (JNum 1),
                                  Send (Some ''out'') (JNum 2), Send (Some ''out'') (JNum 3)],
                     reported := [Error ''broker down''] \<rparr>)"
    using c(5) b(1,2,6)
    by (simp add: calls cl example_client_def List.map_filter_simps)
  with h c(1) b(3) show ?thesis by auto
qed

section \<open>Skipping and taking\<close>

lemma feed_Cons_Some:
  assumes "feed s st (x # xs) = Some (ys, st', sg)"
  obtains s1 st1 out sg1 where "push s st x = Some (s1, st1, out, sg1)"
  using assms by (cases "push s st x") auto

lemma feed_Cons_Continue:
  assumes "push s st x = Some (s1, st1, out, Continue)"
  shows "feed s st (x # xs) =
           (case feed s1 st1 xs of None \<Rightarrow> None
            | Some (ys, st'', sg') \<Rightarrow> Some (emitted out @ ys, st'', sg'))"
  using assms by simp

lemma feed_Cons_stop:
  assumes "push s st x = Some (s1, st1, out, sg1)" and "sg1 \<noteq> Continue"
  shows "feed s st (x # xs) = Some (emitted out, st1, sg1)"
  using assms by (cases sg1) simp_all

lemma feed_Cons_cases:
  assumes "feed s st (x # xs) = Some (ys, st', sg)"
    and "push s st x = Some (s1, st1, out, sg1)"
  shows "(sg1 = Continue \<and> (\<exists>ys'. feed s1 st1 xs = Some (ys', st', sg) \<and> ys = emitted out @ ys'))
       \<or> (sg1 \<noteq> Continue \<and> ys = emitted out \<and> st' = st1 \<and> sg = sg1)"
  using assms by (cases sg1) (auto split: option.splits)

lemma push_SkipS:
  assumes "push s st x = Some (s1, st1, out, sg1)"
  shows "push (SkipS n s) st x =
           Some (SkipS (n - length (emitted out)) s1, st1, (if n = 0 then out else None), sg1)"
  using assms by (cases out; cases n) simp_all

lemma emitted_skip: "emitted (if n = 0 then out else None) = drop n (emitted out)"
  by (cases out) simp_all

lemma push_TakeS_None:
  assumes "push s st x = Some (s1, st1, None, sg1)"
  shows "push (TakeS (Suc k) s) st x = Some (TakeS (Suc k) s1, st1, None, sg1)"
  using assms by simp

lemma push_TakeS_Some:
  assumes "push s st x = Some (s1, st1, Some y, sg1)"
  shows "push (TakeS (Suc k) s) st x =
           Some (TakeS k s1, st1, Some y, if k = 0 then End else sg1)"
  using assms by simp

text \<open>\<open>skip(n)\<close> drops the first \<open>n\<close> events of its source and changes nothing else.\<close>

lemma feed_SkipS:
  "feed s st xs = Some (ys, st', sg) \<Longrightarrow> feed (SkipS n s) st xs = Some (drop n ys, st', sg)"
proof (induction xs arbitrary: s st n ys)
  case Nil
  then show ?case by simp
next
  case (Cons x xs)
  from Cons.prems obtain s1 st1 out sg1 where p: "push s st x = Some (s1, st1, out, sg1)"
    by (rule feed_Cons_Some)
  note q = push_SkipS [OF p, of n]
  from feed_Cons_cases [OF Cons.prems p] show ?case
  proof (elim disjE conjE exE)
    fix ys'
    assume c: "sg1 = Continue" and r: "feed s1 st1 xs = Some (ys', st', sg)"
      and ys: "ys = emitted out @ ys'"
    have "feed (SkipS (n - length (emitted out)) s1) st1 xs
            = Some (drop (n - length (emitted out)) ys', st', sg)"
      using r by (rule Cons.IH)
    with feed_Cons_Continue [OF q [unfolded c], of xs] show ?thesis
      by (simp add: ys emitted_skip del: feed.simps push.simps)
  next
    assume c: "sg1 \<noteq> Continue" and e: "ys = emitted out" "st' = st1" "sg = sg1"
    from feed_Cons_stop [OF q c, of xs] show ?thesis
      by (simp add: e emitted_skip del: feed.simps push.simps)
  qed
qed

lemma feed_TakeS_0: "\<exists>st'' sg'. feed (TakeS 0 s) st xs = Some ([], st'', sg')"
  by (cases xs) simp_all

text \<open>\<open>take(m)\<close> lets the first \<open>m\<close> events of its source through and ends.\<close>

lemma feed_TakeS:
  "feed s st xs = Some (ys, st', sg) \<Longrightarrow>
     \<exists>st'' sg'. feed (TakeS m s) st xs = Some (take m ys, st'', sg')"
proof (induction xs arbitrary: s st m ys)
  case Nil
  then show ?case by simp
next
  case (Cons x xs)
  from Cons.prems obtain s1 st1 out sg1 where p: "push s st x = Some (s1, st1, out, sg1)"
    by (rule feed_Cons_Some)
  show ?case
  proof (cases m)
    case 0
    then show ?thesis using feed_TakeS_0 [of s st "x # xs"] by (simp del: feed.simps push.simps)
  next
    case (Suc k)
    show ?thesis
    proof (cases out)
      case None
      note q = push_TakeS_None [OF p [unfolded None], of k]
      from feed_Cons_cases [OF Cons.prems p] show ?thesis
      proof (elim disjE conjE exE)
        fix ys'
        assume c: "sg1 = Continue" and r: "feed s1 st1 xs = Some (ys', st', sg)"
          and ys: "ys = emitted out @ ys'"
        obtain st'' sg' where "feed (TakeS m s1) st1 xs = Some (take m ys', st'', sg')"
          using Cons.IH [OF r] by blast
        with feed_Cons_Continue [OF q [unfolded c], of xs] show ?thesis
          by (simp add: ys None Suc del: feed.simps push.simps)
      next
        assume c: "sg1 \<noteq> Continue" and e: "ys = emitted out" "st' = st1" "sg = sg1"
        from feed_Cons_stop [OF q c, of xs] show ?thesis
          by (simp add: e None Suc del: feed.simps push.simps)
      qed
    next
      case (Some y)
      note q = push_TakeS_Some [OF p [unfolded Some], of k]
      show ?thesis
      proof (cases "k = 0")
        case True
        have "feed (TakeS (Suc k) s) st (x # xs) = Some ([y], st1, End)"
          using feed_Cons_stop [OF q, of xs] True by (simp del: feed.simps push.simps)
        moreover have "take m ys = [y]"
          using feed_Cons_cases [OF Cons.prems p] Some Suc True by auto
        ultimately show ?thesis using Suc by (simp del: feed.simps push.simps)
      next
        case False
        from feed_Cons_cases [OF Cons.prems p] show ?thesis
        proof (elim disjE conjE exE)
          fix ys'
          assume c: "sg1 = Continue" and r: "feed s1 st1 xs = Some (ys', st', sg)"
            and ys: "ys = emitted out @ ys'"
          obtain st'' sg' where "feed (TakeS k s1) st1 xs = Some (take k ys', st'', sg')"
            using Cons.IH [OF r] by blast
          moreover have "push (TakeS (Suc k) s) st x = Some (TakeS k s1, st1, Some y, Continue)"
            using q False c by simp
          ultimately show ?thesis
            using feed_Cons_Continue [of "TakeS (Suc k) s" st x "TakeS k s1" st1 "Some y" xs]
            by (simp add: ys Some Suc del: feed.simps push.simps)
        next
          assume c: "sg1 \<noteq> Continue" and e: "ys = emitted out" "st' = st1" "sg = sg1"
          have "push (TakeS (Suc k) s) st x = Some (TakeS k s1, st1, Some y, sg1)"
            using q False by simp
          from feed_Cons_stop [OF this c, of xs] show ?thesis
            by (simp add: e Some Suc del: feed.simps push.simps)
        qed
      qed
    qed
  qed
qed

lemma feed_FromEvent: "feed FromEvent st xs = Some (xs, st, Continue)"
  by (induction xs) simp_all

lemma subseq_take_drop: "subseq (take m (drop n ys)) ys"
proof -
  have "subseq (take m (drop n ys)) (drop n ys)"
    by (metis append_take_drop_id list_emb_append2 subseq_order.order_refl list_emb_prefix prefix_def)
  moreover have "subseq (drop n ys) ys"
    by (metis append_take_drop_id list_emb_append2 subseq_order.order_refl)
  ultimately show ?thesis by (rule subseq_order.order_trans)
qed

text \<open>
  Claim C8. Let the handle's stream give the events \<open>ys\<close> (on a fresh handle, the events
  written to it). After \<open>skip(n)\<close> and then \<open>take(m)\<close> it gives \<open>ys\<close> without its first \<open>n\<close>
  events, cut after \<open>m\<close>: that is \<open>min(m, max(0, L - n))\<close> events for \<open>L\<close> the length of
  \<open>ys\<close>, a subsequence of \<open>ys\<close> in the order of \<open>ys\<close>.
\<close>

theorem skip_then_take:
  assumes "feed (stream this) st xs = Some (ys, st', sg)"
  shows "\<exists>zs st'' sg'.
           feed (stream (take_dsl m (skip n this))) st xs = Some (zs, st'', sg')
         \<and> zs = take m (drop n ys)
         \<and> int (length zs) = min (int m) (max 0 (int (length ys) - int n))
         \<and> subseq zs ys
         \<and> (stream this = FromEvent \<longrightarrow> ys = xs)"
proof -
  have "feed (SkipS n (stream this)) st xs = Some (drop n ys, st', sg)"
    using assms by (rule feed_SkipS)
  then obtain st'' sg' where
    "feed (TakeS m (SkipS n (stream this))) st xs = Some (take m (drop n ys), st'', sg')"
    using feed_TakeS by blast
  then have "feed (stream (take_dsl m (skip n this))) st xs = Some (take m (drop n ys), st'', sg')"
    by (simp add: take_dsl_def skip_def)
  moreover have "int (length (take m (drop n ys))) = min (int m) (max 0 (int (length ys) - int n))"
    by simp
  moreover have "stream this = FromEvent \<longrightarrow> ys = xs"
  proof
    assume "stream this = FromEvent"
    with assms have "feed FromEvent st xs = Some (ys, st', sg)" by simp
    then show "ys = xs" by (simp add: feed_FromEvent)
  qed
  ultimately show ?thesis using subseq_take_drop by blast
qed

text \<open>Five events on a fresh handle, \<open>skip(1)\<close> and \<open>take(2)\<close>: the second and the third; and \<open>skip(4)\<close>, \<open>take(3)\<close>: the fifth.\<close>

theorem skip_then_take_witness:
  "feed (stream example_source) [] [JNum 1, JNum 2, JNum 3, JNum 4, JNum 5]
     = Some ([JNum 1, JNum 2, JNum 3, JNum 4, JNum 5], [], Continue)
   \<and> (\<exists>st'' sg'. feed (stream (take_dsl 2 (skip 1 example_source))) []
                    [JNum 1, JNum 2, JNum 3, JNum 4, JNum 5]
                  = Some ([JNum 2, JNum 3], st'', sg'))
   \<and> (\<exists>st'' sg'. feed (stream (take_dsl 3 (skip 4 example_source))) []
                    [JNum 1, JNum 2, JNum 3, JNum 4, JNum 5]
                  = Some ([JNum 5], st'', sg'))"
proof -
  have h: "feed (stream example_source) [] [JNum 1, JNum 2, JNum 3, JNum 4, JNum 5]
     = Some ([JNum 1, JNum 2, JNum 3, JNum 4, JNum 5], [], Continue)"
    by (simp add: example_source_def)
  have a: "\<exists>st'' sg'. feed (stream (take_dsl 2 (skip 1 example_source))) []
                    [JNum 1, JNum 2, JNum 3, JNum 4, JNum 5]
                  = Some ([JNum 2, JNum 3], st'', sg')"
    using skip_then_take [OF h, of 2 1] by (auto simp add: numeral_2_eq_2)
  have b: "\<exists>st'' sg'. feed (stream (take_dsl 3 (skip 4 example_source))) []
                    [JNum 1, JNum 2, JNum 3, JNum 4, JNum 5]
                  = Some ([JNum 5], st'', sg')"
    using skip_then_take [OF h, of 3 4] by (auto simp add: numeral_3_eq_3 eval_nat_numeral)
  from h a b show ?thesis by blast
qed

section \<open>Counting by key\<close>

text \<open>
  Claim C9, as the model of the Count action has it. The ten events of the word-count test
  have the keys if, if, bla, if, blup, if, bla, if, bla, blup. Fed through
  \<open>countByKey("key", "Counts")\<close> on a fresh handle with an empty store they leave the store
  with if = 5, bla = 3, blup = 2, the keys in first-seen order. The step emits every event
  with the running count of its key, 1, 2, 1, 3, 1, 4, 2, 5, 3, 2; the three events that the
  test's \<open>skip(7)\<close> lets through carry 5, 3, 2.
\<close>

theorem count_wordcount_events:
  "feed (stream (countByKey ''key'' ''Counts'' example_source)) [] wordcount_events
     = Some ([counted ''if'' 1, counted ''if'' 2, counted ''bla'' 1, counted ''if'' 3,
              counted ''blup'' 1, counted ''if'' 4, counted ''bla'' 2, counted ''if'' 5,
              counted ''bla'' 3, counted ''blup'' 2],
             [(JStr ''if'', 5), (JStr ''bla'', 3), (JStr ''blup'', 2)], Continue)
   \<and> feed (stream (skip 7 (countByKey ''key'' ''Counts'' example_source))) [] wordcount_events
     = Some ([counted ''if'' 5, counted ''bla'' 3, counted ''blup'' 2],
             [(JStr ''if'', 5), (JStr ''bla'', 3), (JStr ''blup'', 2)], Continue)"
  by code_simp

text \<open>
  The claim as written fails: the ten events it lists have the key if four times and the key
  blup three times, and the store ends with if = 4, bla = 3, blup = 3; ten events come out,
  with the running counts 1, 1, 2, 1, 2, 3, 2, 4, 3, 3.
\<close>

theorem count_spec_events_counterexample:
  "feed (stream (countByKey ''key'' ''Counts'' example_source)) [] spec_events
     = Some ([counted ''if'' 1, counted ''bla'' 1, counted ''if'' 2, counted ''blup'' 1,
              counted ''blup'' 2, counted ''if'' 3, counted ''bla'' 2, counted ''if'' 4,
              counted ''bla'' 3, counted ''blup'' 3],
             [(JStr ''if'', 4), (JStr ''bla'', 3), (JStr ''blup'', 3)], Continue)
   \<and> KStorage_get [(JStr ''if'', 4), (JStr ''bla'', 3), (JStr ''blup'', 3)] (JStr ''if'') \<noteq> Some 5
   \<and> KStorage_get [(JStr ''if'', 4), (JStr ''bla'', 3), (JStr ''blup'', 3)] (JStr ''blup'') \<noteq> Some 2"
  by code_simp

end
